theory Spec2Isabelle
  imports Main "HOL-Library.Word"
begin

section \<open>The countdown latch (src/kudu/util/countdown\_latch.h)\<close>

text \<open>
  \<open>class CountDownLatch\<close> holds a mutex, a condition variable and the member
  \<open>uint64_t count_\<close>. Every method takes the mutex for its whole body, so a method is
  one atomic step on the latch: the model is a state record and one function per method.

  \<^item> \<open>count_\<close> is a 64-bit unsigned word. A trailing underscore is not an Isabelle name,
    so the field is written \<open>count'\<close>.
  \<^item> The parameters \<open>int amount\<close> and \<open>int count\<close> are 32-bit two's complement words
    (\<open>int\<close> of the platforms the code is built for), read with \<open>sint\<close>.
  \<^item> The condition variable is kept as the number of \<open>cond_.Broadcast()\<close> calls made
    so far: the only effect of a method besides the count.
  \<^item> \<open>DCHECK_GE\<close> is a macro of a header that is not part of these sources. It aborts
    the process in a build with debug checks and is empty otherwise, so whether debug
    checks are compiled in is the parameter \<open>dcheck_is_on\<close>, and the abort is the
    error value \<open>DCheckFailed\<close>.
\<close>

type_synonym int32 = "32 word"
type_synonym uint64 = "64 word"

datatype failure = DCheckFailed

record CountDownLatch =
  count' :: uint64
  cond_broadcasts :: nat

text \<open>\<open>cond_.Broadcast()\<close>: one more wake-up of all waiters.\<close>

definition Broadcast :: "CountDownLatch \<Rightarrow> CountDownLatch" where
  "Broadcast l = l\<lparr>cond_broadcasts := Suc (cond_broadcasts l)\<rparr>"

text \<open>
  The conversion C++ applies to an \<open>int\<close> that meets a \<open>uint64_t\<close> in a comparison,
  a subtraction or an initialisation: the value modulo \<open>2^64\<close>, that is sign extension.
\<close>

definition int_to_uint64 :: "int32 \<Rightarrow> uint64" where
  "int_to_uint64 i = scast i"

text \<open>\<open>explicit CountDownLatch(int count) : cond_(&lock_), count_(count) {}\<close>\<close>

definition new_CountDownLatch :: "int32 \<Rightarrow> CountDownLatch" where
  "new_CountDownLatch c = \<lparr>count' = int_to_uint64 c, cond_broadcasts = 0\<rparr>"

text \<open>
  \<^verbatim>\<open>
  void CountDown(int amount) {
    DCHECK_GE(amount, 0);
    MutexLock lock(lock_);
    if (count_ == 0) {
      return;
    }
    if (amount >= count_) {
      count_ = 0;
    } else {
      count_ -= amount;
    }
    if (count_ == 0) {
      cond_.Broadcast();
    }
  }
  \<close>
\<close>

definition CountDown :: "bool \<Rightarrow> int32 \<Rightarrow> CountDownLatch \<Rightarrow> failure + CountDownLatch" where
  "CountDown dcheck_is_on amount l =
     (if dcheck_is_on \<and> \<not> (0 \<le>s amount) then Inl DCheckFailed
      else if count' l = 0 then Inr l
      else
        let l1 = (if int_to_uint64 amount \<ge> count' l
                  then l\<lparr>count' := 0\<rparr>
                  else l\<lparr>count' := count' l - int_to_uint64 amount\<rparr>)
        in Inr (if count' l1 = 0 then Broadcast l1 else l1))"

text \<open>\<open>void CountDown() { CountDown(1); }\<close>\<close>

definition CountDown1 :: "bool \<Rightarrow> CountDownLatch \<Rightarrow> failure + CountDownLatch" where
  "CountDown1 dcheck_is_on l = CountDown dcheck_is_on 1 l"

text \<open>
  \<^verbatim>\<open>
  void Reset(uint64_t count) {
    MutexLock lock(lock_);
    count_ = count;
    if (count_ == 0) {
      cond_.Broadcast();
    }
  }
  \<close>
\<close>

definition Reset :: "uint64 \<Rightarrow> CountDownLatch \<Rightarrow> CountDownLatch" where
  "Reset c l = (let l1 = l\<lparr>count' := c\<rparr> in if count' l1 = 0 then Broadcast l1 else l1)"

text \<open>\<open>uint64_t count() const\<close>\<close>

definition count :: "CountDownLatch \<Rightarrow> uint64" where
  "count l = count' l"

text \<open>
  A caller that counts down several times in a row; the first failed debug check ends
  the run, as the abort would.
\<close>

fun CountDown_all :: "bool \<Rightarrow> int32 list \<Rightarrow> CountDownLatch \<Rightarrow> failure + CountDownLatch" where
  "CountDown_all dcheck_is_on [] l = Inr l"
| "CountDown_all dcheck_is_on (a # as) l =
     (case CountDown dcheck_is_on a l of
        Inl e \<Rightarrow> Inl e
      | Inr l' \<Rightarrow> CountDown_all dcheck_is_on as l')"

section \<open>The log block manager's checkout pool (src/kudu/fs/log\_block\_manager.h)\<close>

text \<open>
  The header declares \<open>class LogBlockManager\<close>: its members, among them
  \<^verbatim>\<open>
  std::unordered_map<std::string, internal::LogBlockContainer*> all_containers_by_name_;
  std::unordered_map<const DataDir*, std::deque<internal::LogBlockContainer*>>
      available_containers_by_data_dir_;
  \<close>
  and the signatures of \<open>GetOrCreateContainer\<close>, \<open>MakeContainerAvailable\<close> and
  \<open>MakeContainerAvailableUnlocked\<close>. The bodies of these functions and the class
  \<open>internal::LogBlockContainer\<close> are in files that are not part of these sources, so
  the definitions of this section follow section 4.E of the specification. A container
  pointer is the container's name, a \<open>DataDir*\<close> is a number, a deque is a list whose
  head is the front, and a data directory without an entry in
  \<open>available_containers_by_data_dir_\<close> has the empty deque, as \<open>operator[]\<close> gives.
\<close>

type_synonym DataDir = nat

text \<open>
  Modelled from the spec: the states of a container, whose class
  \<open>internal::LogBlockContainer\<close> is only forward-declared in the header. Section 4.B:
  "State machine: Fresh \<rightarrow> Open \<rightarrow> {Full, ReadOnly, Dead}".
\<close>

datatype container_state = Fresh | Open | Full | ReadOnly | Dead

text \<open>
  Modelled from the spec: the error kinds of section 7 that creating a container can
  return (\<open>kudu::Status\<close> is declared in a header that is not part of these sources).
\<close>

datatype Status = IOError | ResourceExhausted

text \<open>
  Modelled from the spec: what the pool reads of a \<open>internal::LogBlockContainer\<close>, the
  data directory it lives in and its state.
\<close>

record LogBlockContainer =
  data_dir :: DataDir
  state :: container_state

record LogBlockManager =
  all_containers_by_name :: "string \<rightharpoonup> LogBlockContainer"
  available_containers_by_data_dir :: "DataDir \<Rightarrow> string list"

text \<open>
  Modelled from the spec: the body of \<open>LogBlockManager::MakeContainerAvailableUnlocked\<close>,
  which the header only declares ("Indicate that this container is no longer in use and
  can be handed out to other writers"). Section 4.E, on return of a container: "If the
  writer reported a commit failure: mark ReadOnly and drop from pool. Else if Full at
  commit: keep out of pool. Else: push to the front of the deque." The function takes
  the container alone, so the reported commit failure is read from the container's
  state, which the failed commit has set to \<open>ReadOnly\<close> (section 4.B).
\<close>

definition MakeContainerAvailableUnlocked :: "string \<Rightarrow> LogBlockManager \<Rightarrow> LogBlockManager" where
  "MakeContainerAvailableUnlocked container m =
     (case all_containers_by_name m container of
        None \<Rightarrow> m
      | Some c \<Rightarrow>
          if state c = ReadOnly then m
          else if state c = Full then m
          else m\<lparr>available_containers_by_data_dir :=
                 (available_containers_by_data_dir m)
                   (data_dir c := container # available_containers_by_data_dir m (data_dir c))\<rparr>)"

text \<open>
  Modelled from the spec: the body of \<open>LogBlockManager::MakeContainerAvailable\<close>, the
  variant that takes \<open>lock_\<close> itself; with the lock held it is one atomic step.
\<close>

definition MakeContainerAvailable :: "string \<Rightarrow> LogBlockManager \<Rightarrow> LogBlockManager" where
  "MakeContainerAvailable container m = MakeContainerAvailableUnlocked container m"

text \<open>
  Modelled from the spec: the body of \<open>LogBlockManager::AddNewContainerUnlocked\<close>
  ("Adds an as of yet unseen container to this block manager").
\<close>

definition AddNewContainerUnlocked ::
  "string \<Rightarrow> LogBlockContainer \<Rightarrow> LogBlockManager \<Rightarrow> LogBlockManager" where
  "AddNewContainerUnlocked name c m =
     m\<lparr>all_containers_by_name := (all_containers_by_name m)(name \<mapsto> c)\<rparr>"

text \<open>
  Modelled from the spec: the body of \<open>LogBlockManager::GetOrCreateContainer\<close>, which
  the header only declares. Section 4.E: "Checkout is LIFO [...]. If the pool is empty,
  the engine creates a new container (fresh files, fresh stem) and hands it out." The
  data directory the placement policy picks is the parameter \<open>dir\<close>, and the outcome of
  creating the files of a new container (an error, or the fresh stem) is the parameter
  \<open>created\<close>. The container handed out is in use: it is in no deque.
\<close>

definition GetOrCreateContainer ::
  "DataDir \<Rightarrow> Status + string \<Rightarrow> LogBlockManager \<Rightarrow> Status + (string \<times> LogBlockManager)" where
  "GetOrCreateContainer dir created m =
     (case available_containers_by_data_dir m dir of
        front # rest \<Rightarrow>
          Inr (front, m\<lparr>available_containers_by_data_dir :=
                          (available_containers_by_data_dir m)(dir := rest)\<rparr>)
      | [] \<Rightarrow>
          (case created of
             Inl e \<Rightarrow> Inl e
           | Inr name \<Rightarrow>
               Inr (name, AddNewContainerUnlocked name \<lparr>data_dir = dir, state = Fresh\<rparr> m)))"

text \<open>
  Writers that return the containers \<open>cs\<close> one after the other, and a run of \<open>n\<close>
  checkouts from one data directory that collects the containers handed out.
\<close>

fun release_all :: "string list \<Rightarrow> LogBlockManager \<Rightarrow> LogBlockManager" where
  "release_all [] m = m"
| "release_all (c # cs) m = release_all cs (MakeContainerAvailable c m)"

fun checkout_n ::
  "nat \<Rightarrow> DataDir \<Rightarrow> Status + string \<Rightarrow> LogBlockManager
     \<Rightarrow> Status + (string list \<times> LogBlockManager)" where
  "checkout_n 0 dir created m = Inr ([], m)"
| "checkout_n (Suc n) dir created m =
     (case GetOrCreateContainer dir created m of
        Inl e \<Rightarrow> Inl e
      | Inr (c, m1) \<Rightarrow>
          (case checkout_n n dir created m1 of
             Inl e \<Rightarrow> Inl e
           | Inr (cs, m2) \<Rightarrow> Inr (c # cs, m2)))"

text \<open>
  The containers of a data directory that a return puts into the pool: known to the
  manager, in that directory, neither \<open>Full\<close> nor \<open>ReadOnly\<close>.
\<close>

definition poolable :: "LogBlockManager \<Rightarrow> DataDir \<Rightarrow> string \<Rightarrow> bool" where
  "poolable m dir container =
     (case all_containers_by_name m container of
        None \<Rightarrow> False
      | Some c \<Rightarrow> data_dir c = dir \<and> state c \<noteq> Full \<and> state c \<noteq> ReadOnly)"

text \<open>
  A manager with four containers in data directory 0, two of them open, one full and
  one read-only, and nothing in the pool.
\<close>

definition pool_example :: LogBlockManager where
  "pool_example =
     \<lparr>all_containers_by_name =
        [''a'' \<mapsto> \<lparr>data_dir = 0, state = Open\<rparr>,
         ''b'' \<mapsto> \<lparr>data_dir = 0, state = Full\<rparr>,
         ''c'' \<mapsto> \<lparr>data_dir = 0, state = Open\<rparr>,
         ''d'' \<mapsto> \<lparr>data_dir = 0, state = ReadOnly\<rparr>],
      available_containers_by_data_dir = (\<lambda>_. [])\<rparr>"

section \<open>Properties of the countdown latch\<close>

subsection \<open>The conversion of a non-negative amount\<close>

lemma unat_int_to_uint64:
  assumes "0 \<le>s amount"
  shows "unat (int_to_uint64 amount) = nat (sint amount)"
proof -
  have nonneg: "0 \<le> sint amount"
    using assms by (simp add: word_sle_eq)
  have "sint amount < 2 ^ (LENGTH(32) - 1)"
    by (rule sint_lt)
  then have small: "sint amount < 2 ^ LENGTH(64)"
    by simp
  have "uint (word_of_int (sint amount) :: uint64) = sint amount mod 2 ^ LENGTH(64)"
    by (rule uint_word_of_int)
  also have "\<dots> = sint amount"
    using nonneg small by (rule mod_pos_pos_trivial)
  finally have "uint (word_of_int (sint amount) :: uint64) = sint amount" .
  then have "uint (int_to_uint64 amount) = sint amount"
    by (simp only: int_to_uint64_def scast_eq)
  then show ?thesis
    by (simp only: unat_eq_nat_uint)
qed

lemma count_Broadcast: "count' (Broadcast l) = count' l"
  by (simp add: Broadcast_def)

lemma count_Reset: "count (Reset c l) = c"
  by (simp add: Reset_def count_def Let_def count_Broadcast)

subsection \<open>One call of CountDown\<close>

lemma CountDown_step:
  assumes "0 \<le>s amount"
  shows "\<exists>l'. CountDown dcheck_is_on amount l = Inr l' \<and>
           count l' = (if count l = 0 then count l
                       else if unat (count l) \<le> nat (sint amount) then 0
                       else count l - int_to_uint64 amount) \<and>
           unat (count l') = unat (count l) - nat (sint amount)"
proof -
  let ?a = "int_to_uint64 amount"
  have ua: "unat ?a = nat (sint amount)"
    using assms by (rule unat_int_to_uint64)
  show ?thesis
  proof (cases "count' l = 0")
    case True
    then show ?thesis
      using assms by (simp add: CountDown_def count_def)
  next
    case nz: False
    show ?thesis
    proof (cases "count' l \<le> ?a")
      case True
      then have "unat (count' l) \<le> nat (sint amount)"
        using ua by (simp add: word_le_nat_alt)
      then show ?thesis
        using assms nz True by (simp add: CountDown_def count_def count_Broadcast)
    next
      case False
      then have lt: "?a < count' l" by simp
      then have gt: "nat (sint amount) < unat (count' l)"
        using ua by (simp add: word_less_nat_alt)
      have sub: "unat (count' l - ?a) = unat (count' l) - nat (sint amount)"
        using lt ua by (simp add: unat_sub)
      have nz': "count' l - ?a \<noteq> 0"
        using lt by simp
      show ?thesis
        using assms nz False gt sub nz'
        by (simp add: CountDown_def count_def count_Broadcast)
    qed
  qed
qed

subsection \<open>Any number of calls\<close>

lemma CountDown_all_saturating:
  assumes "list_all (\<lambda>a. 0 \<le>s a) amounts"
  shows "\<exists>l'. CountDown_all dcheck_is_on amounts l = Inr l' \<and>
           unat (count l') = unat (count l) - sum_list (map (\<lambda>a. nat (sint a)) amounts)"
  using assms
proof (induction amounts arbitrary: l)
  case Nil
  then show ?case by simp
next
  case (Cons a as)
  from Cons.prems have a: "0 \<le>s a" and rest: "list_all (\<lambda>a. 0 \<le>s a) as"
    by simp_all
  from CountDown_step [OF a, of dcheck_is_on l] obtain l1 where
    step: "CountDown dcheck_is_on a l = Inr l1" and
    c1: "unat (count l1) = unat (count l) - nat (sint a)"
    by blast
  from Cons.IH [OF rest, of l1] obtain l2 where
    run: "CountDown_all dcheck_is_on as l1 = Inr l2" and
    c2: "unat (count l2) = unat (count l1) - sum_list (map (\<lambda>a. nat (sint a)) as)"
    by blast
  from step run have "CountDown_all dcheck_is_on (a # as) l = Inr l2"
    by simp
  moreover from c1 c2 have
    "unat (count l2) = unat (count l) - sum_list (map (\<lambda>a. nat (sint a)) (a # as))"
    by simp
  ultimately show ?case by blast
qed

subsection \<open>The claim\<close>

text \<open>
  Claim C10. For every latch with count \<open>c\<close> and every call \<open>CountDown(amount)\<close> with
  \<open>amount \<ge> 0\<close>, with or without debug checks, the call returns and: if \<open>c = 0\<close> the
  count is unchanged; if \<open>amount \<ge> c\<close> the count becomes exactly \<open>0\<close>; otherwise it
  becomes \<open>c - amount\<close>. Read as a natural number the new count is the truncated
  difference of \<open>c\<close> and \<open>amount\<close>: the unsigned count never wraps below zero and never
  grows in a \<open>CountDown\<close>. Only \<open>Reset(n)\<close> can raise it: it stores \<open>n\<close> whatever the
  count was.
\<close>

theorem CountDown_saturating_subtraction:
  assumes "0 \<le>s amount"
  shows "\<exists>l'. CountDown dcheck_is_on amount l = Inr l' \<and>
           count l' = (if count l = 0 then count l
                       else if unat (count l) \<le> nat (sint amount) then 0
                       else count l - int_to_uint64 amount) \<and>
           unat (count l') = unat (count l) - nat (sint amount) \<and>
           unat (count l') \<le> unat (count l) \<and>
           count (Reset n l') = n"
proof -
  from CountDown_step [OF assms, of dcheck_is_on l] obtain l' where
    ret: "CountDown dcheck_is_on amount l = Inr l'" and
    val: "count l' = (if count l = 0 then count l
                      else if unat (count l) \<le> nat (sint amount) then 0
                      else count l - int_to_uint64 amount)" and
    sat: "unat (count l') = unat (count l) - nat (sint amount)"
    by blast
  from sat have "unat (count l') \<le> unat (count l)"
    by simp
  with ret val sat show ?thesis
    by (simp add: count_Reset)
qed

text \<open>
  The theorem at a latch of count 5: counting down by 3 with debug checks on leaves 2 and
  wakes nobody, and resetting the result to 9 gives 9.
\<close>

theorem CountDown_saturating_subtraction_witness:
  "0 \<le>s (3 :: int32) \<and>
   CountDown True 3 \<lparr>count' = 5, cond_broadcasts = 0\<rparr> = Inr \<lparr>count' = 2, cond_broadcasts = 0\<rparr> \<and>
   unat (count \<lparr>count' = 2, cond_broadcasts = 0\<rparr>) = unat (count \<lparr>count' = 5, cond_broadcasts = 0\<rparr>) - nat (sint (3 :: int32)) \<and>
   count (Reset 9 \<lparr>count' = 2, cond_broadcasts = 0\<rparr>) = 9"
proof -
  have h: "0 \<le>s (3 :: int32)"
    by (simp add: word_sle_eq)
  have run: "CountDown True 3 \<lparr>count' = 5, cond_broadcasts = 0\<rparr> = Inr \<lparr>count' = 2, cond_broadcasts = 0\<rparr>"
    by (simp add: CountDown_def int_to_uint64_def h)
  from CountDown_saturating_subtraction [OF h, of True "\<lparr>count' = 5, cond_broadcasts = 0\<rparr>" 9]
  show ?thesis
    using h run by auto
qed

section \<open>Properties of the checkout pool\<close>

subsection \<open>Returning containers\<close>

lemma MakeContainerAvailable_containers:
  "all_containers_by_name (MakeContainerAvailable c m) = all_containers_by_name m"
  by (simp add: MakeContainerAvailable_def MakeContainerAvailableUnlocked_def
      split: option.split)

lemma poolable_MakeContainerAvailable:
  "poolable (MakeContainerAvailable c m) dir x = poolable m dir x"
  by (simp add: poolable_def MakeContainerAvailable_containers)

lemma MakeContainerAvailable_deque:
  "available_containers_by_data_dir (MakeContainerAvailable c m) dir =
     (if poolable m dir c then c # available_containers_by_data_dir m dir
      else available_containers_by_data_dir m dir)"
  by (simp add: MakeContainerAvailable_def MakeContainerAvailableUnlocked_def poolable_def
      split: option.split)

lemma release_all_deque:
  "available_containers_by_data_dir (release_all cs m) dir =
     rev (filter (poolable m dir) cs) @ available_containers_by_data_dir m dir"
proof (induction cs arbitrary: m)
  case Nil
  show ?case by simp
next
  case (Cons c cs)
  have "poolable (MakeContainerAvailable c m) dir = poolable m dir"
    by (rule ext) (rule poolable_MakeContainerAvailable)
  then have same:
    "filter (poolable (MakeContainerAvailable c m) dir) cs = filter (poolable m dir) cs"
    by (rule arg_cong)
  show ?case
    by (simp add: Cons.IH same MakeContainerAvailable_deque)
qed

lemma release_all_containers:
  "all_containers_by_name (release_all cs m) = all_containers_by_name m"
  by (induction cs arbitrary: m) (simp_all add: MakeContainerAvailable_containers)

subsection \<open>Checking containers out\<close>

lemma checkout_n_pops:
  assumes "available_containers_by_data_dir m dir = xs @ ys"
  shows "\<exists>m'. checkout_n (length xs) dir created m = Inr (xs, m') \<and>
           available_containers_by_data_dir m' dir = ys \<and>
           all_containers_by_name m' = all_containers_by_name m"
  using assms
proof (induction xs arbitrary: m)
  case Nil
  then show ?case by simp
next
  case (Cons x xs)
  let ?m1 = "m\<lparr>available_containers_by_data_dir :=
                (available_containers_by_data_dir m)(dir := xs @ ys)\<rparr>"
  from Cons.prems have first: "GetOrCreateContainer dir created m = Inr (x, ?m1)"
    by (simp add: GetOrCreateContainer_def)
  have "available_containers_by_data_dir ?m1 dir = xs @ ys"
    by simp
  from Cons.IH [OF this] obtain m' where
    run: "checkout_n (length xs) dir created ?m1 = Inr (xs, m')" and
    left: "available_containers_by_data_dir m' dir = ys" and
    keep: "all_containers_by_name m' = all_containers_by_name ?m1"
    by blast
  from first run have "checkout_n (length (x # xs)) dir created m = Inr (x # xs, m')"
    by simp
  with left keep show ?case
    by auto
qed

lemma pool_example_filter:
  "filter (poolable pool_example 0) [''a'', ''b'', ''c'', ''d''] = [''a'', ''c'']"
  by (simp add: poolable_def pool_example_def)

subsection \<open>The claim\<close>

text \<open>
  Claim C6. Checkout from the per-directory pool is LIFO. When writers return the
  containers \<open>cs\<close> one after the other, exactly those of data directory \<open>dir\<close> that are
  neither \<open>Full\<close> nor \<open>ReadOnly\<close> are pushed to the front of the directory's deque, so
  the deque then holds them most recently returned first, before what it held; a
  \<open>Full\<close> or \<open>ReadOnly\<close> container is not entered. The checkouts that follow take the
  front element each time: they succeed without creating a container, hand the returned
  containers out most recently returned first, and leave the deque as it was before the
  returns.
\<close>

theorem checkout_is_LIFO:
  "available_containers_by_data_dir (release_all cs m) dir =
     rev (filter (poolable m dir) cs) @ available_containers_by_data_dir m dir \<and>
   (\<exists>m'. checkout_n (length (filter (poolable m dir) cs)) dir created (release_all cs m) =
            Inr (rev (filter (poolable m dir) cs), m') \<and>
          available_containers_by_data_dir m' dir = available_containers_by_data_dir m dir \<and>
          all_containers_by_name m' = all_containers_by_name m)"
proof -
  let ?p = "filter (poolable m dir) cs"
  have deque: "available_containers_by_data_dir (release_all cs m) dir =
      rev ?p @ available_containers_by_data_dir m dir"
    by (rule release_all_deque)
  from checkout_n_pops [OF deque, of created] obtain m' where
    "checkout_n (length (rev ?p)) dir created (release_all cs m) = Inr (rev ?p, m')" and
    "available_containers_by_data_dir m' dir = available_containers_by_data_dir m dir" and
    "all_containers_by_name m' = all_containers_by_name (release_all cs m)"
    by blast
  then show ?thesis
    using deque by (auto simp: release_all_containers)
qed

text \<open>
  The theorem at \<open>pool_example\<close>: after the returns of a, b, c and d the deque of
  directory 0 is c, a (b is full, d is read-only), and two checkouts hand out c, then a,
  although no new container can be created.
\<close>

theorem checkout_is_LIFO_witness:
  "available_containers_by_data_dir (release_all [''a'', ''b'', ''c'', ''d''] pool_example) 0 =
     [''c'', ''a''] \<and>
   (\<exists>m'. checkout_n 2 0 (Inl ResourceExhausted)
            (release_all [''a'', ''b'', ''c'', ''d''] pool_example) =
            Inr ([''c'', ''a''], m') \<and>
          available_containers_by_data_dir m' 0 = [])"
proof -
  have empty: "available_containers_by_data_dir pool_example 0 = []"
    by (simp add: pool_example_def)
  from checkout_is_LIFO [of "[''a'', ''b'', ''c'', ''d'']" pool_example 0 "Inl ResourceExhausted"]
  show ?thesis
    unfolding pool_example_filter empty
    by (auto simp del: release_all.simps checkout_n.simps simp: numeral_2_eq_2)
qed

end
